theory Spec2Isabelle
  imports Main "HOL-Library.Word"
begin

section \<open>EventHub API client: the session layer\<close>

text \<open>
  The development embeds the class \<open>APIClient\<close> (request, refreshToken, login, logout,
  isAuthenticated and the convenience callers) and \<open>API_CONFIG\<close> (TIMEOUT, the
  endpoint table, getHeaders). The browser is the environment: \<open>localStorage\<close> is a
  map from keys to strings, there is a clock in milliseconds, timers carry a deadline
  and the controller their callback aborts, \<open>fetch\<close> is answered by a server
  function, and every asynchronous method returns the new browser state together with
  either the rejection (\<open>Inl\<close>) or the resolved value (\<open>Inr\<close>).
\<close>

subsection \<open>JavaScript values\<close>

text \<open>
  A parsed JSON body. Objects are association lists read with \<open>map_of\<close>. A number
  is represented by the text that \<open>String\<close> prints for it (\<open>0\<close> for a zero of
  either sign, \<open>0.5\<close>, \<open>1e+21\<close>), which determines both its truthiness and its
  string form.
\<close>

datatype json =
    JNull
  | JBool bool
  | JNum string
  | JStr string
  | JArr "json list"
  | JObj "(string \<times> json) list"

text \<open>Rejections: \<open>new Error(msg)\<close>, a \<open>TypeError\<close>, and the \<open>DOMException\<close>
  named \<open>AbortError\<close> with which an aborted fetch rejects.\<close>

datatype js_error = Error string | TypeError string | AbortError

fun name :: "js_error \<Rightarrow> string" where
  "name (Error m) = ''Error''"
| "name (TypeError m) = ''TypeError''"
| "name AbortError = ''AbortError''"

fun message :: "js_error \<Rightarrow> string" where
  "message (Error m) = m"
| "message (TypeError m) = m"
| "message AbortError = ''The operation was aborted.''"

text \<open>Truthiness of a value; \<open>None\<close> stands for \<open>undefined\<close>.\<close>

fun js_truthy :: "json \<Rightarrow> bool" where
  "js_truthy JNull = False"
| "js_truthy (JBool b) = b"
| "js_truthy (JNum r) = (r \<noteq> ''0'')"
| "js_truthy (JStr s) = (s \<noteq> [])"
| "js_truthy (JArr xs) = True"
| "js_truthy (JObj kv) = True"

fun truthy :: "json option \<Rightarrow> bool" where
  "truthy None = False"
| "truthy (Some v) = js_truthy v"

text \<open>Decimal rendering of a natural number below \<open>10^21\<close>, as a template literal
  prints it; it is used for the status of a response, an \<open>unsigned short\<close>.\<close>

definition digit_char :: "nat \<Rightarrow> char" where
  "digit_char d = char_of (48 + d)"

function string_of_nat :: "nat \<Rightarrow> string" where
  "string_of_nat n =
     (if n < 10 then [digit_char n]
      else string_of_nat (n div 10) @ [digit_char (n mod 10)])"
  by pat_completeness auto
termination
  by (relation "measure (\<lambda>n. n)") auto

declare string_of_nat.simps [simp del]

fun join_comma :: "string list \<Rightarrow> string" where
  "join_comma [] = []"
| "join_comma [x] = x"
| "join_comma (x # y # ys) = x @ '','' @ join_comma (y # ys)"

text \<open>
  \<open>String(v)\<close>, the conversion applied by \<open>new Error(v)\<close>, by a template literal
  and by \<open>localStorage.setItem(k, v)\<close>. A plain object prints as
  \<open>[object Object]\<close>, unless it has a key \<open>toString\<close> of its own: that value,
  coming from JSON, is not a function, and the conversion throws a TypeError. An array
  prints its elements joined by commas, \<open>null\<close> as the empty string, and throws when
  an element does.
\<close>

fun to_String :: "json \<Rightarrow> js_error + string"
  and to_Strings :: "json list \<Rightarrow> js_error + string list"
where
  "to_String JNull = Inr ''null''"
| "to_String (JBool b) = Inr (if b then ''true'' else ''false'')"
| "to_String (JNum r) = Inr r"
| "to_String (JStr s) = Inr s"
| "to_String (JArr xs) =
     (case to_Strings xs of Inl e \<Rightarrow> Inl e | Inr strs \<Rightarrow> Inr (join_comma strs))"
| "to_String (JObj kv) =
     (case map_of kv ''toString'' of
        None \<Rightarrow> Inr ''[object Object]''
      | Some f \<Rightarrow> Inl (TypeError ''Cannot convert object to primitive value''))"
| "to_Strings [] = Inr []"
| "to_Strings (x # xs) =
     (case (if x = JNull then Inr [] else to_String x) of
        Inl e \<Rightarrow> Inl e
      | Inr str \<Rightarrow>
          (case to_Strings xs of Inl e \<Rightarrow> Inl e | Inr strs \<Rightarrow> Inr (str # strs)))"

fun to_String_opt :: "json option \<Rightarrow> js_error + string" where
  "to_String_opt None = Inr ''undefined''"
| "to_String_opt (Some v) = to_String v"

text \<open>
  Reading a property (\<open>data.detail\<close>, \<open>data.error\<close>, \<open>data.access\<close>,
  \<open>data.refresh\<close>): on \<open>null\<close> the read throws a TypeError, on an object it is the
  stored value or \<open>undefined\<close>, on every other value it is \<open>undefined\<close> (no
  prototype defines one of these four names).
\<close>

fun get_prop :: "json \<Rightarrow> string \<Rightarrow> js_error + json option" where
  "get_prop JNull k = Inl (TypeError ''Cannot read properties of null'')"
| "get_prop (JObj kv) k = Inr (map_of kv k)"
| "get_prop v k = Inr None"

subsection \<open>The browser state\<close>

text \<open>The \<open>init\<close> argument of one \<open>fetch\<close> call, with its URL. The body is the
  value whose JSON text is sent; the signal is the controller it belongs to.\<close>

record fetch_call =
  f_url :: string
  f_method :: "string option"
  f_headers :: "string \<rightharpoonup> string"
  f_body :: "json option"
  f_signal :: "nat option"

text \<open>An armed timer whose callback is \<open>() => controller.abort()\<close>: its identifier,
  the time at which it fires, and the controller.\<close>

record timer =
  t_id :: nat
  t_deadline :: nat
  t_controller :: nat

record state =
  localStorage :: "string \<rightharpoonup> string"
  location_href :: string
  now :: nat
  timers :: "timer list"
  next_timer :: nat
  controllers :: nat
  aborted :: "nat list"
  sent :: "fetch_call list"

text \<open>
  \<open>now\<close> is the clock; \<open>timers\<close> holds the timers that are armed and have neither
  fired nor been cleared; \<open>controllers\<close> is the last controller created;
  \<open>aborted\<close> lists the controllers whose \<open>abort()\<close> has run; \<open>sent\<close> logs
  every fetch in order.
\<close>

definition getItem :: "state \<Rightarrow> string \<Rightarrow> string option" where
  "getItem s k = localStorage s k"

definition setItem :: "state \<Rightarrow> string \<Rightarrow> string \<Rightarrow> state" where
  "setItem s k v = s\<lparr>localStorage := (localStorage s)(k \<mapsto> v)\<rparr>"

definition removeItem :: "state \<Rightarrow> string \<Rightarrow> state" where
  "removeItem s k = s\<lparr>localStorage := (localStorage s)(k := None)\<rparr>"

text \<open>\<open>new AbortController()\<close> is an object distinct from every controller created
  so far and from every controller that a timer or an earlier abort refers to.\<close>

definition fresh_controller :: "state \<Rightarrow> nat" where
  "fresh_controller s =
     Suc (fold max (map t_controller (timers s) @ aborted s) (controllers s))"

definition new_AbortController :: "state \<Rightarrow> state" where
  "new_AbortController s = s\<lparr>controllers := fresh_controller s\<rparr>"

text \<open>\<open>setTimeout(() => controller.abort(), delay)\<close> returns \<open>next_timer s\<close>.\<close>

definition setTimeout :: "state \<Rightarrow> nat \<Rightarrow> nat \<Rightarrow> state" where
  "setTimeout s controller delay =
     s\<lparr>timers := timers s @
           [\<lparr>t_id = next_timer s, t_deadline = now s + delay, t_controller = controller\<rparr>],
       next_timer := Suc (next_timer s)\<rparr>"

definition clearTimeout :: "state \<Rightarrow> nat \<Rightarrow> state" where
  "clearTimeout s i = s\<lparr>timers := filter (\<lambda>tm. t_id tm \<noteq> i) (timers s)\<rparr>"

text \<open>\<open>d\<close> milliseconds pass: every timer whose deadline is reached fires, that is, it
  is no longer armed and its controller is aborted.\<close>

definition elapse :: "state \<Rightarrow> nat \<Rightarrow> state" where
  "elapse s d =
     s\<lparr>now := now s + d,
       timers := filter (\<lambda>tm. now s + d < t_deadline tm) (timers s),
       aborted := aborted s @
         map t_controller (filter (\<lambda>tm. t_deadline tm \<le> now s + d) (timers s))\<rparr>"

text \<open>
  What the network does with one fetch: after \<open>t\<close> milliseconds the promise either
  rejects with a TypeError (no connection) or resolves with a response of some status.
  Reading the body of that response then takes its own time and yields a parsed value
  (\<open>Some\<close>) or fails (\<open>None\<close>), or it never finishes. A server decides from the
  fetches seen so far and the current one.
\<close>

datatype body_read =
    Body nat "json option"
  | Stalled

datatype fetch_reply =
    NetworkError nat string
  | Response nat "16 word" body_read

type_synonym server = "fetch_call list \<Rightarrow> fetch_call \<Rightarrow> fetch_reply"

fun latency :: "fetch_reply \<Rightarrow> nat" where
  "latency (NetworkError t msg) = t"
| "latency (Response t status bdy) = t"

text \<open>The deadlines of the armed timers that abort the controller of a call.\<close>

definition abort_deadlines :: "state \<Rightarrow> fetch_call \<Rightarrow> nat list" where
  "abort_deadlines s call =
     map t_deadline (filter (\<lambda>tm. f_signal call = Some (t_controller tm)) (timers s))"

definition signal_aborted :: "state \<Rightarrow> fetch_call \<Rightarrow> bool" where
  "signal_aborted s call =
     (case f_signal call of None \<Rightarrow> False | Some c \<Rightarrow> c \<in> set (aborted s))"

text \<open>
  \<open>await fetch(url, init)\<close>: when a timer that aborts the signal of the call is due
  before the reply, the clock moves to that deadline and the promise rejects with an
  AbortError; otherwise the clock moves by the latency of the reply, which settles the
  promise.
\<close>

definition await_fetch ::
  "state \<Rightarrow> fetch_call \<Rightarrow> fetch_reply \<Rightarrow> state \<times> (js_error + 16 word \<times> body_read)" where
  "await_fetch s call reply =
     (if signal_aborted s call then (s, Inl AbortError)
      else
        (let ds = filter (\<lambda>d. d \<le> now s + latency reply) (abort_deadlines s call) in
         if ds \<noteq> [] then (elapse s (fold min ds (hd ds) - now s), Inl AbortError)
         else
           (elapse s (latency reply),
            case reply of
              NetworkError t msg \<Rightarrow> Inl (TypeError msg)
            | Response t status bdy \<Rightarrow> Inr (status, bdy))))"

text \<open>
  \<open>await response.json().catch(() => ({}))\<close>, before the substitution of \<open>{}\<close>:
  \<open>Some (s', Some v)\<close> is a parsed body, \<open>Some (s', None)\<close> a read that failed (no
  JSON, or the signal was aborted meanwhile), and \<open>None\<close> a read that never ends.
\<close>

definition await_json :: "state \<Rightarrow> fetch_call \<Rightarrow> body_read \<Rightarrow> (state \<times> json option) option" where
  "await_json s call bdy =
     (if signal_aborted s call then Some (s, None)
      else
        (let ds = (case bdy of
                     Stalled \<Rightarrow> abort_deadlines s call
                   | Body t v \<Rightarrow> filter (\<lambda>d. d \<le> now s + t) (abort_deadlines s call)) in
         if ds \<noteq> [] then Some (elapse s (fold min ds (hd ds) - now s), None)
         else (case bdy of Stalled \<Rightarrow> None | Body t v \<Rightarrow> Some (elapse s t, v))))"

subsection \<open>API_CONFIG\<close>

definition BASE_URL :: string where
  "BASE_URL = ''http://localhost:8000/api''"

definition TIMEOUT :: nat where
  "TIMEOUT = 30000"

definition LOGIN :: string where "LOGIN = ''/token/''"
definition REFRESH :: string where "REFRESH = ''/token/refresh/''"
definition REGISTER :: string where "REGISTER = ''/auth/register/''"
definition EVENTS :: string where "EVENTS = ''/events/events/''"
definition HEALTH :: string where "HEALTH = ''/health/''"

definition getHeaders :: "state \<Rightarrow> bool \<Rightarrow> (string \<rightharpoonup> string)" where
  "getHeaders s includeAuth =
     (let headers = [''Content-Type'' \<mapsto> ''application/json''] in
      if includeAuth then
        (case getItem s ''access_token'' of
           None \<Rightarrow> headers
         | Some token \<Rightarrow>
             if token \<noteq> [] then headers(''Authorization'' \<mapsto> ''Bearer '' @ token)
             else headers)
      else headers)"

subsection \<open>APIClient.request and APIClient.refreshToken\<close>

text \<open>The options object of \<open>request\<close> (the field \<open>method\<close> is written
  \<open>method'\<close>). A missing \<open>auth\<close> or \<open>retry\<close> is
  \<open>None\<close>; only \<open>Some False\<close> is \<open>=== false\<close>. Missing headers are the empty
  map.\<close>

record options =
  method' :: "string option"
  body :: "json option"
  headers :: "string \<rightharpoonup> string"
  auth :: "bool option"
  retry :: "bool option"

text \<open>The URL and the \<open>config\<close> object: the defaults of \<open>getHeaders\<close> first, the
  caller's headers spread over them.\<close>

definition fetch_args :: "state \<Rightarrow> string \<Rightarrow> options \<Rightarrow> fetch_call" where
  "fetch_args s endpoint opts =
     \<lparr>f_url = BASE_URL @ endpoint,
      f_method = method' opts,
      f_headers = getHeaders s (auth opts \<noteq> Some False) ++ headers opts,
      f_body = body opts,
      f_signal = None\<rparr>"

text \<open>The argument of \<open>fetch\<close>: \<open>{...config, signal: controller.signal}\<close>, with the
  controller that \<open>request\<close> creates.\<close>

definition outgoing :: "state \<Rightarrow> string \<Rightarrow> options \<Rightarrow> fetch_call" where
  "outgoing s endpoint opts = (fetch_args s endpoint opts)\<lparr>f_signal := Some (fresh_controller s)\<rparr>"

text \<open>The state while the fetch is under way: the controller is created, the timer that
  aborts it after \<open>this.timeout\<close> is armed, and the call is logged.\<close>

definition arm :: "state \<Rightarrow> fetch_call \<Rightarrow> state" where
  "arm s call =
     (setTimeout (new_AbortController s) (fresh_controller s) TIMEOUT)\<lparr>sent := sent s @ [call]\<rparr>"

definition ok :: "16 word \<Rightarrow> bool" where
  "ok status = (200 \<le> status \<and> status \<le> 299)"

definition TIMEOUT_MESSAGE :: string where
  "TIMEOUT_MESSAGE =
     ''La petici'' @ [char_of (195::nat), char_of (179::nat)] @ ''n tard''
       @ [char_of (195::nat), char_of (179::nat)] @ '' demasiado tiempo''"

text \<open>The \<open>catch\<close> block of \<open>request\<close>: an AbortError becomes the time-out
  error, every other error is thrown again as it is.\<close>

definition catch_request :: "js_error \<Rightarrow> js_error" where
  "catch_request e = (if name e = ''AbortError'' then Error TIMEOUT_MESSAGE else e)"

text \<open>What \<open>throw new Error(v)\<close> throws: the Error whose message is \<open>String(v)\<close>, or
  the TypeError of that conversion.\<close>

definition thrown :: "json option \<Rightarrow> js_error" where
  "thrown v = (case to_String_opt v of Inl e \<Rightarrow> e | Inr m \<Rightarrow> Error m)"

text \<open>
  The end of the \<open>try\<close> block, once the body has been read: a failed read is replaced
  by \<open>{}\<close>, and a status outside 200..299 throws
  \<open>new Error(data.detail || data.error || `Error ${response.status}`)\<close>.
\<close>

definition settle :: "16 word \<Rightarrow> json option \<Rightarrow> js_error + json" where
  "settle status parsed =
     (let data = (case parsed of None \<Rightarrow> JObj [] | Some d \<Rightarrow> d) in
      if \<not> ok status then
        (case get_prop data ''detail'' of
           Inl e \<Rightarrow> Inl e
         | Inr detail \<Rightarrow>
             if truthy detail then Inl (thrown detail)
             else
               (case get_prop data ''error'' of
                  Inl e \<Rightarrow> Inl e
                | Inr err \<Rightarrow>
                    if truthy err then Inl (thrown err)
                    else Inl (Error (''Error '' @ string_of_nat (unat status)))))
      else Inr data)"

definition rethrow :: "js_error + json \<Rightarrow> js_error + json" where
  "rethrow r = (case r of Inl e \<Rightarrow> Inl (catch_request e) | Inr v \<Rightarrow> Inr v)"

text \<open>Reading the body of the final response and settling; a body that never finishes
  leaves the call pending.\<close>

definition finish ::
  "state \<Rightarrow> fetch_call \<Rightarrow> 16 word \<Rightarrow> body_read \<Rightarrow> (state \<times> (js_error + json)) option" where
  "finish s call status bdy =
     (case await_json s call bdy of
        None \<Rightarrow> None
      | Some (s', parsed) \<Rightarrow> Some (s', rethrow (settle status parsed)))"

definition post_options :: "json \<Rightarrow> options" where
  "post_options data =
     \<lparr>method' = Some ''POST'', body = Some data, headers = Map.empty,
      auth = None, retry = None\<rparr>"

definition logout :: "state \<Rightarrow> state" where
  "logout s =
     (removeItem (removeItem s ''access_token'') ''refresh_token'')
       \<lparr>location_href := ''/pages/login.html''\<rparr>"

text \<open>
  \<open>request\<close> and \<open>refreshToken\<close> call each other. The first argument bounds the
  depth of nested \<open>request\<close> calls. \<open>None\<close> means that the call has not settled:
  the depth was not enough, or a body never finishes. A call that is \<open>None\<close> at every
  depth never settles.
\<close>

fun request :: "nat \<Rightarrow> server \<Rightarrow> state \<Rightarrow> string \<Rightarrow> options \<Rightarrow> (state \<times> (js_error + json)) option"
  and refreshToken :: "nat \<Rightarrow> server \<Rightarrow> state \<Rightarrow> (state \<times> bool) option"
where
  "request 0 srv s endpoint opts = None"
| "request (Suc n) srv s endpoint opts =
     (let call = outgoing s endpoint opts;
          timeoutId = next_timer s;
          s1 = arm s call
      in case await_fetch s1 call (srv (sent s) call) of
           (s2, Inl e) \<Rightarrow> Some (s2, Inl (catch_request e))
         | (s2, Inr (status, bdy)) \<Rightarrow>
             (let s3 = clearTimeout s2 timeoutId in
              if status = 401 \<and> retry opts \<noteq> Some False then
                (case refreshToken n srv s3 of
                   None \<Rightarrow> None
                 | Some (s4, refreshed) \<Rightarrow>
                     if refreshed then request n srv s4 endpoint (opts\<lparr>retry := Some False\<rparr>)
                     else finish s4 call status bdy)
              else finish s3 call status bdy))"
| "refreshToken n srv s =
     (case getItem s ''refresh_token'' of
        None \<Rightarrow> Some (s, False)
      | Some refresh \<Rightarrow>
          if refresh = [] then Some (s, False)
          else
            (case request n srv s REFRESH (post_options (JObj [(''refresh'', JStr refresh)])) of
               None \<Rightarrow> None
             | Some (s1, Inl e) \<Rightarrow> Some (logout s1, False)
             | Some (s1, Inr data) \<Rightarrow>
                 (case get_prop data ''access'' of
                    Inl e \<Rightarrow> Some (logout s1, False)
                  | Inr access \<Rightarrow>
                      if truthy access then
                        (case to_String_opt access of
                           Inl e \<Rightarrow> Some (logout s1, False)
                         | Inr token \<Rightarrow> Some (setItem s1 ''access_token'' token, True))
                      else Some (s1, False))))"

subsection \<open>The HTTP methods\<close>


definition post :: "nat \<Rightarrow> server \<Rightarrow> state \<Rightarrow> string \<Rightarrow> json \<Rightarrow> (state \<times> (js_error + json)) option" where
  "post n srv s endpoint data = request n srv s endpoint (post_options data)"

definition put :: "nat \<Rightarrow> server \<Rightarrow> state \<Rightarrow> string \<Rightarrow> json \<Rightarrow> (state \<times> (js_error + json)) option" where
  "put n srv s endpoint data =
     request n srv s endpoint
       \<lparr>method' = Some ''PUT'', body = Some data, headers = Map.empty, auth = None, retry = None\<rparr>"







subsection \<open>Authentication\<close>

definition NO_TOKEN_MESSAGE :: string where
  "NO_TOKEN_MESSAGE = ''No se recibi'' @ [char_of (195::nat), char_of (179::nat)] @ '' token''"

definition success_result :: "json \<Rightarrow> json" where
  "success_result data = JObj [(''success'', JBool True), (''data'', data)]"

definition failure_result :: "string \<Rightarrow> json" where
  "failure_result msg = JObj [(''success'', JBool False), (''error'', JStr msg)]"

text \<open>In \<open>login\<close> the two \<open>setItem\<close> calls convert their value with \<open>String\<close>; a
  conversion that throws is caught like every other error of the \<open>try\<close> block.\<close>

definition login :: "nat \<Rightarrow> server \<Rightarrow> state \<Rightarrow> string \<Rightarrow> string \<Rightarrow> (state \<times> (js_error + json)) option" where
  "login n srv s username password =
     (case post n srv s LOGIN
             (JObj [(''username'', JStr username), (''password'', JStr password)]) of
        None \<Rightarrow> None
      | Some (s1, Inl e) \<Rightarrow> Some (s1, Inr (failure_result (message e)))
      | Some (s1, Inr data) \<Rightarrow>
          (case get_prop data ''access'' of
             Inl e \<Rightarrow> Some (s1, Inr (failure_result (message e)))
           | Inr access \<Rightarrow>
               if truthy access then
                 (case to_String_opt access of
                    Inl e \<Rightarrow> Some (s1, Inr (failure_result (message e)))
                  | Inr token \<Rightarrow>
                      (let s2 = setItem s1 ''access_token'' token in
                       case get_prop data ''refresh'' of
                         Inl e \<Rightarrow> Some (s2, Inr (failure_result (message e)))
                       | Inr refresh \<Rightarrow>
                           (case to_String_opt refresh of
                              Inl e \<Rightarrow> Some (s2, Inr (failure_result (message e)))
                            | Inr r \<Rightarrow>
                                Some (setItem s2 ''refresh_token'' r, Inr (success_result data)))))
               else Some (s1, Inr (failure_result NO_TOKEN_MESSAGE))))"

definition register :: "nat \<Rightarrow> server \<Rightarrow> state \<Rightarrow> json \<Rightarrow> (state \<times> (js_error + json)) option" where
  "register n srv s userData =
     (case post n srv s REGISTER userData of
        None \<Rightarrow> None
      | Some (s1, Inl e) \<Rightarrow> Some (s1, Inr (failure_result (message e)))
      | Some (s1, Inr data) \<Rightarrow> Some (s1, Inr (success_result data)))"

definition isAuthenticated :: "state \<Rightarrow> bool" where
  "isAuthenticated s =
     (case getItem s ''access_token'' of None \<Rightarrow> False | Some token \<Rightarrow> token \<noteq> [])"


subsection \<open>Events, categories, venues, tickets, attendees, sponsors, health\<close>
























text \<open>Nothing can abort controller \<open>c\<close>: it is not newer than the last controller
  created, it has not been aborted, and no armed timer refers to it.\<close>

definition quiet :: "nat \<Rightarrow> state \<Rightarrow> bool" where
  "quiet c s =
     (c \<le> controllers s \<and> c \<notin> set (aborted s) \<and> c \<notin> set (map t_controller (timers s)))"

subsection \<open>Browser states and servers used as concrete inputs\<close>

definition fresh :: state where
  "fresh = \<lparr>localStorage = Map.empty, location_href = [], now = 0, timers = [],
            next_timer = 0, controllers = 0, aborted = [], sent = []\<rparr>"

definition session :: "string \<Rightarrow> string \<Rightarrow> state" where
  "session access refresh =
     setItem (setItem fresh ''access_token'' access) ''refresh_token'' refresh"

definition always :: "fetch_reply \<Rightarrow> server" where
  "always reply = (\<lambda>history call. reply)"

text \<open>A server that answers the i-th fetch with the i-th reply of a script, and drops the
  connection once the script is used up.\<close>

definition scripted :: "fetch_reply list \<Rightarrow> server" where
  "scripted replies =
     (\<lambda>history call.
        if length history < length replies then replies ! length history
        else NetworkError 0 ''Failed to fetch'')"

definition unauthorized :: fetch_reply where
  "unauthorized =
     Response 20 401 (Body 5 (Some (JObj [(''detail'', JStr ''Token is invalid or expired'')])))"

definition get_options :: options where
  "get_options =
     \<lparr>method' = Some ''GET'', body = None, headers = Map.empty, auth = None, retry = None\<rparr>"

definition refresh_ok :: fetch_reply where
  "refresh_ok = Response 10 200 (Body 5 (Some (JObj [(''access'', JStr ''A2'')])))"

text \<open>
  Specification side: the message prescribed for a final response outside the success
  range, read as the first truthy of the body's \<open>detail\<close> and \<open>error\<close> fields in
  string form, else the generic text. It is undefined (\<open>None\<close>) for a body that is
  \<open>null\<close> and for a field that has no string form. It is compared with \<open>settle\<close>
  below.
\<close>

definition string_form :: "json option \<Rightarrow> string option" where
  "string_form v = (case to_String_opt v of Inl e \<Rightarrow> None | Inr m \<Rightarrow> Some m)"

definition message_of_body :: "16 word \<Rightarrow> json option \<Rightarrow> string option" where
  "message_of_body status parsed =
     (let data = (case parsed of None \<Rightarrow> JObj [] | Some d \<Rightarrow> d);
          detail = (case data of JObj kv \<Rightarrow> map_of kv ''detail'' | _ \<Rightarrow> None);
          err = (case data of JObj kv \<Rightarrow> map_of kv ''error'' | _ \<Rightarrow> None)
      in if data = JNull then None
         else if truthy detail then string_form detail
         else if truthy err then string_form err
         else Some (''Error '' @ string_of_nat (unat status)))"

section \<open>Basic facts\<close>

text \<open>
  A new controller is referred to by no timer and has not been aborted.
\<close>

lemma fold_max_ge_init: "(a::nat) \<le> fold max xs a"
  by (induction xs arbitrary: a) (auto intro: order_trans [OF max.cobounded2])

lemma fold_max_ge_elem: "(x::nat) \<in> set xs \<Longrightarrow> x \<le> fold max xs a"
proof (induction xs arbitrary: a)
  case Nil
  then show ?case by simp
next
  case (Cons y ys)
  show ?case
  proof (cases "x = y")
    case True
    have "y \<le> max y a" by simp
    also have "\<dots> \<le> fold max ys (max y a)" by (rule fold_max_ge_init)
    finally show ?thesis using True by simp
  next
    case False
    with Cons show ?thesis by simp
  qed
qed

lemma timer_lt_fresh: "tm \<in> set (timers s) \<Longrightarrow> t_controller tm < fresh_controller s"
  unfolding fresh_controller_def
  by (rule le_imp_less_Suc, rule fold_max_ge_elem) simp

lemma aborted_lt_fresh: "c \<in> set (aborted s) \<Longrightarrow> c < fresh_controller s"
  unfolding fresh_controller_def
  by (rule le_imp_less_Suc, rule fold_max_ge_elem) simp

lemma fresh_not_aborted: "fresh_controller s \<notin> set (aborted s)"
  using aborted_lt_fresh [of "fresh_controller s" s] by auto

lemma fresh_not_targeted: "filter (\<lambda>tm. t_controller tm = fresh_controller s) (timers s) = []"
  by (auto simp: filter_empty_conv dest: timer_lt_fresh)

lemma fresh_not_targeted': "filter (\<lambda>tm. fresh_controller s = t_controller tm) (timers s) = []"
  by (auto simp: filter_empty_conv dest: timer_lt_fresh)

lemma now_arm [simp]: "now (arm s call) = now s"
  by (simp add: arm_def setTimeout_def new_AbortController_def)

lemma aborted_arm [simp]: "aborted (arm s call) = aborted s"
  by (simp add: arm_def setTimeout_def new_AbortController_def)

lemma timers_arm:
  "timers (arm s call) =
     timers s @ [\<lparr>t_id = next_timer s, t_deadline = now s + TIMEOUT, t_controller = fresh_controller s\<rparr>]"
  by (simp add: arm_def setTimeout_def new_AbortController_def)

lemma no_abort_deadlines:
  assumes "f_signal call = Some c" and "\<And>tm. tm \<in> set (timers s) \<Longrightarrow> t_controller tm \<noteq> c"
  shows "abort_deadlines s call = []"
  unfolding abort_deadlines_def using assms by (simp add: filter_empty_conv) metis

text \<open>
  While the fetch is under way the only timer that aborts its controller is the one
  just armed, so the fetch is aborted exactly when the reply takes \<open>TIMEOUT\<close> or
  longer; and once that timer is cleared nothing aborts the read of the body.
\<close>

lemma await_fetch_arm:
  assumes "f_signal call = Some (fresh_controller s)"
  shows "await_fetch (arm s call) call reply =
           (if TIMEOUT \<le> latency reply then (elapse (arm s call) TIMEOUT, Inl AbortError)
            else (elapse (arm s call) (latency reply),
                  case reply of
                    NetworkError t msg \<Rightarrow> Inl (TypeError msg)
                  | Response t status bdy \<Rightarrow> Inr (status, bdy)))"
proof -
  have a: "\<not> signal_aborted (arm s call) call"
    using assms fresh_not_aborted [of s] by (simp add: signal_aborted_def)
  have d: "abort_deadlines (arm s call) call = [now s + TIMEOUT]"
    using assms fresh_not_targeted' [of s] by (simp add: abort_deadlines_def timers_arm)
  show ?thesis
    using a d by (simp add: await_fetch_def Let_def)
qed

lemma await_json_cleared:
  assumes "f_signal call = Some (fresh_controller s)" and "t < TIMEOUT"
  shows "await_json (clearTimeout (elapse (arm s call) t) (next_timer s)) call bdy =
           (case bdy of
              Stalled \<Rightarrow> None
            | Body t2 v \<Rightarrow> Some (elapse (clearTimeout (elapse (arm s call) t) (next_timer s)) t2, v))"
proof -
  let ?s3 = "clearTimeout (elapse (arm s call) t) (next_timer s)"
  have tm: "set (timers ?s3) \<subseteq> set (timers s)"
    using assms(2) by (auto simp: clearTimeout_def elapse_def timers_arm)
  have ab: "set (aborted ?s3) \<subseteq> set (aborted s) \<union> t_controller ` set (timers s)"
    using assms(2) by (auto simp: clearTimeout_def elapse_def timers_arm)
  have "fresh_controller s \<notin> set (aborted s) \<union> t_controller ` set (timers s)"
    using fresh_not_aborted [of s] by (auto dest: timer_lt_fresh)
  with ab have "fresh_controller s \<notin> set (aborted ?s3)" by blast
  with assms(1) have a: "\<not> signal_aborted ?s3 call"
    by (simp add: signal_aborted_def)
  have "t_controller tm \<noteq> fresh_controller s" if "tm \<in> set (timers ?s3)" for tm
  proof -
    from that tm have "tm \<in> set (timers s)" by blast
    from timer_lt_fresh [OF this] show ?thesis by simp
  qed
  with assms(1) have d: "abort_deadlines ?s3 call = []"
    by (rule no_abort_deadlines)
  show ?thesis
    using a d by (simp add: await_json_def Let_def split: body_read.splits)
qed

lemma f_signal_outgoing [simp]: "f_signal (outgoing s e opts) = Some (fresh_controller s)"
  by (simp add: outgoing_def)

text \<open>
  \<open>request\<close> with the environment resolved.
\<close>

lemma request_Suc:
  "request (Suc n) srv s e opts =
     (let call = outgoing s e opts; reply = srv (sent s) call in
      if TIMEOUT \<le> latency reply
      then Some (elapse (arm s call) TIMEOUT, Inl (Error TIMEOUT_MESSAGE))
      else
        (case reply of
           NetworkError t msg \<Rightarrow> Some (elapse (arm s call) t, Inl (TypeError msg))
         | Response t status bdy \<Rightarrow>
             (let s3 = clearTimeout (elapse (arm s call) t) (next_timer s) in
              if status = 401 \<and> retry opts \<noteq> Some False then
                (case refreshToken n srv s3 of
                   None \<Rightarrow> None
                 | Some (s4, refreshed) \<Rightarrow>
                     if refreshed then request n srv s4 e (opts\<lparr>retry := Some False\<rparr>)
                     else finish s4 call status bdy)
              else
                (case bdy of
                   Stalled \<Rightarrow> None
                 | Body t2 v \<Rightarrow> Some (elapse s3 t2, rethrow (settle status v))))))"
proof -
  let ?call = "outgoing s e opts"
  let ?reply = "srv (sent s) ?call"
  have af: "await_fetch (arm s ?call) ?call ?reply =
           (if TIMEOUT \<le> latency ?reply then (elapse (arm s ?call) TIMEOUT, Inl AbortError)
            else (elapse (arm s ?call) (latency ?reply),
                  case ?reply of
                    NetworkError t msg \<Rightarrow> Inl (TypeError msg)
                  | Response t status bdy \<Rightarrow> Inr (status, bdy)))"
    by (rule await_fetch_arm) simp
  show ?thesis
  proof (cases "TIMEOUT \<le> latency ?reply")
    case True
    with af show ?thesis by (simp add: Let_def catch_request_def)
  next
    case False
    show ?thesis
    proof (cases ?reply)
      case (NetworkError t msg)
      with af False show ?thesis by (simp add: Let_def catch_request_def)
    next
      case (Response t status bdy)
      with False have t: "t < TIMEOUT" by simp
      have aj: "finish (clearTimeout (elapse (arm s ?call) t) (next_timer s)) ?call status bdy =
            (case bdy of Stalled \<Rightarrow> None
             | Body t2 v \<Rightarrow> Some (elapse (clearTimeout (elapse (arm s ?call) t) (next_timer s)) t2,
                                   rethrow (settle status v)))"
        using await_json_cleared [of ?call s t bdy] t
        by (simp add: finish_def split: body_read.splits)
      from af False Response aj show ?thesis
        by (simp add: Let_def del: refreshToken.simps)
    qed
  qed
qed

declare request.simps(2) [simp del]

lemma getItem_arm [simp]: "getItem (arm s c) k = getItem s k"
  by (simp add: getItem_def arm_def setTimeout_def new_AbortController_def)

lemma getItem_clearTimeout [simp]: "getItem (clearTimeout s i) k = getItem s k"
  by (simp add: getItem_def clearTimeout_def)

lemma getItem_elapse [simp]: "getItem (elapse s d) k = getItem s k"
  by (simp add: getItem_def elapse_def)

lemma sent_arm [simp]: "sent (arm s c) = sent s @ [c]"
  by (simp add: arm_def setTimeout_def new_AbortController_def)

lemma sent_clearTimeout [simp]: "sent (clearTimeout s i) = sent s"
  by (simp add: clearTimeout_def)

lemma sent_elapse [simp]: "sent (elapse s d) = sent s"
  by (simp add: elapse_def)

lemma sent_logout [simp]: "sent (logout s) = sent s"
  by (simp add: logout_def removeItem_def)

lemma sent_setItem [simp]: "sent (setItem s k v) = sent s"
  by (simp add: setItem_def)

lemma f_url_outgoing [simp]: "f_url (outgoing s e opts) = BASE_URL @ e"
  by (simp add: outgoing_def fetch_args_def)

lemma retry_post_options [simp]: "retry (post_options d) = None"
  by (simp add: post_options_def)

lemma rethrow_Error [simp]: "rethrow (Inl (Error m)) = Inl (Error m)"
  by (simp add: rethrow_def catch_request_def)

lemma rethrow_TypeError [simp]: "rethrow (Inl (TypeError m)) = Inl (TypeError m)"
  by (simp add: rethrow_def catch_request_def)

lemma rethrow_Inr [simp]: "rethrow (Inr v) = Inr v"
  by (simp add: rethrow_def)

lemma not_ok_401 [simp]: "\<not> ok 401"
  by (simp add: ok_def)

lemma finish_sent: "finish s call status bdy = Some (s', r) \<Longrightarrow> sent s' = sent s"
  by (auto simp: finish_def await_json_def Let_def split: if_splits body_read.splits)

lemma finish_not_stalled:
  "bdy \<noteq> Stalled \<Longrightarrow> finish s call status bdy \<noteq> None"
  by (cases bdy) (auto simp: finish_def await_json_def Let_def)

lemma logout_clears:
  "getItem (logout s) ''access_token'' = None \<and> getItem (logout s) ''refresh_token'' = None \<and>
   \<not> isAuthenticated (logout s)"
  by (simp add: logout_def removeItem_def getItem_def isAuthenticated_def)

lemma getItem_fresh [simp]: "getItem fresh k = None"
  by (simp add: fresh_def getItem_def)

text \<open>
  \<open>settle\<close> against the specification side: outside the success range it throws
  an Error with the prescribed message wherever that message is defined. On a body
  that is \<open>null\<close> the read of \<open>data.detail\<close> throws instead, and so does the
  conversion of a field that holds an object with a key \<open>toString\<close>.
\<close>

lemma settle_not_ok:
  assumes "\<not> ok status" and "message_of_body status parsed = Some m"
  shows "settle status parsed = Inl (Error m)"
proof -
  let ?data = "case parsed of None \<Rightarrow> JObj [] | Some d \<Rightarrow> d"
  from assms(2) have nn: "?data \<noteq> JNull"
    by (auto simp: message_of_body_def Let_def split: if_splits)
  show ?thesis
  proof (cases ?data)
    case JNull
    with nn show ?thesis by simp
  next
    case (JObj kv)
    with assms show ?thesis
      by (auto simp: settle_def message_of_body_def Let_def thrown_def string_form_def
            split: if_splits sum.splits option.splits)
  qed (use assms in \<open>auto simp: settle_def message_of_body_def Let_def split: option.splits\<close>)
qed

lemma settle_null:
  "\<not> ok status \<Longrightarrow> settle status (Some JNull) = Inl (TypeError ''Cannot read properties of null'')"
  by (simp add: settle_def)

lemma settle_own_toString:
  "settle 400 (Some (JObj [(''detail'', JObj [(''toString'', JStr ''x'')])])) =
     Inl (TypeError ''Cannot convert object to primitive value'')"
  by (simp add: settle_def ok_def thrown_def)


lemma settle_ok: "ok status \<Longrightarrow> settle status parsed = Inr (case parsed of None \<Rightarrow> JObj [] | Some v \<Rightarrow> v)"
  by (simp add: settle_def)

lemma settle_rejects: "\<not> ok status \<Longrightarrow> \<exists>e. rethrow (settle status parsed) = Inl e"
  by (auto simp: settle_def rethrow_def Let_def split: sum.splits)


text \<open>
  A controller that nothing can abort stays so through nested calls: every controller
  created later is a different one. Hence the body of a 401 response, read after a
  refresh that returned false, is read to its end like any other.
\<close>

lemma controllers_lt_fresh: "controllers s < fresh_controller s"
  unfolding fresh_controller_def by (rule le_imp_less_Suc, rule fold_max_ge_init)

lemma quiet_arm: "quiet c s \<Longrightarrow> quiet c (arm s call)"
  using controllers_lt_fresh [of s]
  by (auto simp: quiet_def arm_def setTimeout_def new_AbortController_def)

lemma quiet_elapse: "quiet c s \<Longrightarrow> quiet c (elapse s d)"
  by (auto simp: quiet_def elapse_def)

lemma quiet_clearTimeout: "quiet c s \<Longrightarrow> quiet c (clearTimeout s i)"
  by (auto simp: quiet_def clearTimeout_def)

lemma quiet_setItem: "quiet c s \<Longrightarrow> quiet c (setItem s k v)"
  by (auto simp: quiet_def setItem_def)

lemma quiet_logout: "quiet c s \<Longrightarrow> quiet c (logout s)"
  by (auto simp: quiet_def logout_def removeItem_def)

lemma await_json_quiet:
  assumes "f_signal call = Some c" and "quiet c s"
  shows "await_json s call bdy =
           (case bdy of Stalled \<Rightarrow> None | Body t2 v \<Rightarrow> Some (elapse s t2, v))"
proof -
  from assms have a: "\<not> signal_aborted s call"
    by (simp add: signal_aborted_def quiet_def)
  from assms(2) have "\<And>tm. tm \<in> set (timers s) \<Longrightarrow> t_controller tm \<noteq> c"
    by (auto simp: quiet_def)
  with assms(1) have d: "abort_deadlines s call = []"
    by (rule no_abort_deadlines)
  show ?thesis
    using a d by (simp add: await_json_def Let_def split: body_read.splits)
qed

lemma finish_quiet:
  assumes "f_signal call = Some c" and "quiet c s"
  shows "finish s call status bdy =
           (case bdy of
              Stalled \<Rightarrow> None
            | Body t2 v \<Rightarrow> Some (elapse s t2, rethrow (settle status v)))"
  using await_json_quiet [OF assms, of bdy] by (simp add: finish_def split: body_read.splits)

lemma quiet_finish: "quiet c s \<Longrightarrow> finish s call status bdy = Some (s', r) \<Longrightarrow> quiet c s'"
  by (auto simp: finish_def await_json_def Let_def quiet_elapse split: if_splits body_read.splits)

lemma quiet_cleared:
  assumes "t < TIMEOUT"
  shows "quiet (fresh_controller s) (clearTimeout (elapse (arm s call) t) (next_timer s))"
proof -
  let ?s3 = "clearTimeout (elapse (arm s call) t) (next_timer s)"
  have tm: "set (timers ?s3) \<subseteq> set (timers s)"
    using assms by (auto simp: clearTimeout_def elapse_def timers_arm)
  have ab: "set (aborted ?s3) \<subseteq> set (aborted s) \<union> t_controller ` set (timers s)"
    using assms by (auto simp: clearTimeout_def elapse_def timers_arm)
  have nf: "fresh_controller s \<notin> set (aborted s) \<union> t_controller ` set (timers s)"
    using fresh_not_aborted [of s] by (auto dest: timer_lt_fresh)
  have c: "controllers ?s3 = fresh_controller s"
    by (simp add: clearTimeout_def elapse_def arm_def setTimeout_def new_AbortController_def)
  from tm ab nf c show ?thesis
    by (auto simp: quiet_def)
qed

lemma quiet_preserved:
  "(\<forall>s e opts s' r. quiet c s \<and> request n srv s e opts = Some (s', r) \<longrightarrow> quiet c s') \<and>
   (\<forall>s s' b. quiet c s \<and> refreshToken n srv s = Some (s', b) \<longrightarrow> quiet c s')"
proof (induction n)
  case 0
  show ?case by (auto split: option.splits if_splits)
next
  case (Suc n)
  then have IH1: "\<And>s e opts s' r. quiet c s \<Longrightarrow> request n srv s e opts = Some (s', r) \<Longrightarrow> quiet c s'"
    and IH2: "\<And>s s' b. quiet c s \<Longrightarrow> refreshToken n srv s = Some (s', b) \<Longrightarrow> quiet c s'"
    by blast+
  have req: "quiet c s'"
    if q: "quiet c s" and r: "request (Suc n) srv s e opts = Some (s', r)" for s e opts s' r
  proof -
    let ?call = "outgoing s e opts"
    have qa: "quiet c (elapse (arm s ?call) d)" for d
      using q by (intro quiet_elapse quiet_arm)
    have q3: "quiet c (clearTimeout (elapse (arm s ?call) d) i)" for d i
      using qa by (rule quiet_clearTimeout)
    show ?thesis
      using r
      apply (subst (asm) request_Suc)
      apply (auto simp: Let_def qa q3 quiet_elapse
          split: fetch_reply.splits if_splits option.splits prod.splits body_read.splits
          dest: IH1 [OF _ ] IH2 [OF q3] quiet_finish [rotated] simp del: refreshToken.simps)
      done
  qed
  have "quiet c s'" if q: "quiet c s" and r: "refreshToken (Suc n) srv s = Some (s', b)" for s s' b
    using r q
    apply (subst (asm) refreshToken.simps)
    apply (auto split: option.splits if_splits prod.splits sum.splits
        intro: quiet_logout quiet_setItem dest: req [OF q] simp del: refreshToken.simps)
    done
  with req show ?case by blast
qed

lemma finish_after_refresh:
  assumes "t < TIMEOUT"
    and "refreshToken n srv (clearTimeout (elapse (arm s (outgoing s e opts)) t) (next_timer s)) = Some (s4, b)"
  shows "finish s4 (outgoing s e opts) status bdy =
           (case bdy of
              Stalled \<Rightarrow> None
            | Body t2 v \<Rightarrow> Some (elapse s4 t2, rethrow (settle status v)))"
proof -
  have "quiet (fresh_controller s) (clearTimeout (elapse (arm s (outgoing s e opts)) t) (next_timer s))"
    using assms(1) by (rule quiet_cleared)
  with assms(2) quiet_preserved [of "fresh_controller s" n srv] have "quiet (fresh_controller s) s4"
    by blast
  then show ?thesis
    by (intro finish_quiet) simp_all
qed

section \<open>Session store\<close>

text \<open>
  Claim C10. \<open>logout\<close> removes the keys \<open>access_token\<close> and \<open>refresh_token\<close> from
  \<open>localStorage\<close> and leaves every other key, such as a cached user profile, with
  the value it had.
\<close>

theorem logout_frame:
  "getItem (logout s) ''access_token'' = None \<and>
   getItem (logout s) ''refresh_token'' = None \<and>
   (\<forall>k. k \<noteq> ''access_token'' \<and> k \<noteq> ''refresh_token'' \<longrightarrow>
        getItem (logout s) k = getItem s k)"
  by (simp add: logout_def removeItem_def getItem_def)

theorem logout_frame_witness:
  "getItem (logout (setItem (session ''A1'' ''R1'') ''user'' ''{}'')) ''user'' = Some ''{}'' \<and>
   getItem (logout (setItem (session ''A1'' ''R1'') ''user'' ''{}'')) ''access_token'' = None \<and>
   getItem (logout (setItem (session ''A1'' ''R1'') ''user'' ''{}'')) ''refresh_token'' = None"
  using logout_frame [of "setItem (session ''A1'' ''R1'') ''user'' ''{}''"]
  by (simp add: setItem_def getItem_def)

text \<open>
  Claim C9. When the server answers the login request in time with a success status and
  a body whose \<open>access\<close> field is a non-empty string, \<open>login\<close> settles, the token
  is stored, \<open>isAuthenticated\<close> is true right afterwards, and it is false after a
  subsequent \<open>logout\<close>. The value returned is \<open>{success: true, data}\<close>, unless
  the \<open>refresh\<close> field cannot be converted to a string: then the \<open>catch\<close> block
  returns \<open>{success: false, error}\<close>, with the access token already stored.
\<close>

theorem login_logout_round_trip:
  assumes "srv (sent s)
             (outgoing s LOGIN
                (post_options (JObj [(''username'', JStr username), (''password'', JStr password)])))
           = Response t status (Body t2 (Some data))"
    and "t < TIMEOUT" and "ok status"
    and "get_prop data ''access'' = Inr (Some (JStr token))" and "token \<noteq> []"
  shows "\<exists>s'. login (Suc n) srv s username password =
                Some (s', Inr (case get_prop data ''refresh'' of
                                 Inl e \<Rightarrow> failure_result (message e)
                               | Inr refresh \<Rightarrow>
                                   (case to_String_opt refresh of
                                      Inl e \<Rightarrow> failure_result (message e)
                                    | Inr r \<Rightarrow> success_result data))) \<and>
              getItem s' ''access_token'' = Some token \<and>
              isAuthenticated s' \<and> \<not> isAuthenticated (logout s')"
proof -
  from assms(3) have st: "status \<noteq> 401" by (auto simp: ok_def)
  from assms(4) have "data \<noteq> JNull" by auto
  then obtain r where r: "get_prop data ''refresh'' = Inr r" by (cases data) auto
  show ?thesis
    using assms st r
    by (cases "to_String_opt r")
       (simp_all add: login_def post_def request_Suc Let_def settle_ok isAuthenticated_def
          getItem_def setItem_def logout_def removeItem_def elapse_def clearTimeout_def)
qed

theorem login_logout_round_trip_witness:
  "\<exists>s'. login 1 (scripted [Response 12 200 (Body 4 (Some (JObj [(''access'', JStr ''A1''), (''refresh'', JStr ''R1'')])))])
            fresh ''alice'' ''secret''
          = Some (s', Inr (success_result (JObj [(''access'', JStr ''A1''), (''refresh'', JStr ''R1'')]))) \<and>
        getItem s' ''access_token'' = Some ''A1'' \<and>
        isAuthenticated s' \<and> \<not> isAuthenticated (logout s')"
  using login_logout_round_trip
    [of "scripted [Response 12 200 (Body 4 (Some (JObj [(''access'', JStr ''A1''), (''refresh'', JStr ''R1'')])))]"
        fresh "''alice''" "''secret''" 12 200 4
        "JObj [(''access'', JStr ''A1''), (''refresh'', JStr ''R1'')]" "''A1''" 0]
  by (simp add: scripted_def fresh_def TIMEOUT_def ok_def)

section \<open>Request dispatch\<close>

text \<open>
  Claim C7. A response with a success status whose body does not parse as JSON makes
  \<open>request\<close> resolve with the empty object; and at any status an unparsable body is
  treated exactly as the body \<open>{}\<close>.
\<close>

theorem malformed_body_empty_object:
  assumes "srv (sent s) (outgoing s endpoint opts) = Response t status (Body t2 None)"
    and "t < TIMEOUT" and "ok status"
  shows "request (Suc n) srv s endpoint opts =
           Some (elapse (clearTimeout (elapse (arm s (outgoing s endpoint opts)) t) (next_timer s)) t2,
                 Inr (JObj [])) \<and>
         settle status' None = settle status' (Some (JObj []))"
proof -
  from assms(3) have "status \<noteq> 401" by (auto simp: ok_def)
  with assms show ?thesis
    by (simp add: request_Suc Let_def settle_ok) (simp add: settle_def)
qed

theorem malformed_body_empty_object_witness:
  "request 1 (always (Response 8 200 (Body 3 None))) fresh HEALTH get_options =
     Some (elapse (clearTimeout (elapse (arm fresh (outgoing fresh HEALTH get_options)) 8) (next_timer fresh)) 3,
           Inr (JObj []))"
  using malformed_body_empty_object
    [of "always (Response 8 200 (Body 3 None))" fresh HEALTH get_options 8 200 3 0]
  by (simp add: always_def TIMEOUT_def ok_def)

text \<open>
  Claim C4, as amended. When the caller's own headers have no \<open>Authorization\<close> entry:
  with \<open>auth\<close> not set to false and a non-empty access token stored, the request
  carries \<open>Authorization: Bearer token\<close>; with \<open>auth\<close> set to false, or no token (or
  an empty one) stored, it carries no \<open>Authorization\<close> header. A caller's own
  \<open>Authorization\<close> header takes precedence and is sent as given. The headers handed to
  \<open>fetch\<close> are those of the \<open>config\<close> object.
\<close>

theorem authorization_header:
  "(headers opts ''Authorization'' = None \<and> auth opts \<noteq> Some False \<and>
    getItem s ''access_token'' = Some token \<and> token \<noteq> [] \<longrightarrow>
      f_headers (fetch_args s endpoint opts) ''Authorization'' = Some (''Bearer '' @ token)) \<and>
   (headers opts ''Authorization'' = None \<and>
    (auth opts = Some False \<or> getItem s ''access_token'' = None \<or>
     getItem s ''access_token'' = Some []) \<longrightarrow>
      f_headers (fetch_args s endpoint opts) ''Authorization'' = None) \<and>
   (headers opts ''Authorization'' = Some v \<longrightarrow>
      f_headers (fetch_args s endpoint opts) ''Authorization'' = Some v) \<and>
   f_headers (outgoing s endpoint opts) = f_headers (fetch_args s endpoint opts)"
  by (auto simp: outgoing_def fetch_args_def getHeaders_def map_add_def Let_def split: option.splits)

theorem authorization_header_witness:
  "f_headers (fetch_args (session ''A1'' ''R1'') EVENTS get_options) ''Authorization''
     = Some ''Bearer A1'' \<and>
   f_headers (fetch_args (session ''A1'' ''R1'') EVENTS (get_options\<lparr>auth := Some False\<rparr>))
     ''Authorization'' = None \<and>
   f_headers (fetch_args fresh EVENTS (get_options\<lparr>headers := [''Authorization'' \<mapsto> ''Basic abc'']\<rparr>))
     ''Authorization'' = Some ''Basic abc''"
  using authorization_header [of get_options "session ''A1'' ''R1''" "''A1''" EVENTS]
    authorization_header [of "get_options\<lparr>auth := Some False\<rparr>" "session ''A1'' ''R1''" "''A1''" EVENTS]
    authorization_header [of "get_options\<lparr>headers := [''Authorization'' \<mapsto> ''Basic abc'']\<rparr>"
        fresh "''A1''" EVENTS "''Basic abc''"]
  by (simp add: get_options_def session_def setItem_def getItem_def)

text \<open>
  The claim as stated fails on a caller-supplied header: with \<open>auth\<close> set to false
  the request still carries the caller's \<open>Authorization\<close>, and with a token stored
  the caller's value replaces the bearer token.
\<close>

theorem caller_authorization_counterexample:
  "f_headers (fetch_args (session ''A1'' ''R1'') EVENTS
      (get_options\<lparr>headers := [''Authorization'' \<mapsto> ''Basic abc''], auth := Some False\<rparr>))
     ''Authorization'' = Some ''Basic abc'' \<and>
   f_headers (fetch_args (session ''A1'' ''R1'') EVENTS
      (get_options\<lparr>headers := [''Authorization'' \<mapsto> ''Basic abc'']\<rparr>))
     ''Authorization'' = Some ''Basic abc''"
  by (simp add: fetch_args_def get_options_def)

text \<open>
  Claim C6, as amended. When the final response has a status outside the success range,
  its body is not \<open>null\<close>, and the field selected has a string form, \<open>request\<close>
  rejects with an Error whose message is the first truthy of the body's \<open>detail\<close> and
  \<open>error\<close> fields, in string form, and otherwise \<open>Error\<close> followed by the
  status. The response is final when no refresh is attempted (status other than 401, or
  \<open>retry\<close> set to false) or when the refresh returns false.
\<close>

theorem request_error_message:
  assumes "srv (sent s) (outgoing s endpoint opts) = Response t status (Body t2 parsed)"
    and "t < TIMEOUT" and "\<not> ok status" and "message_of_body status parsed = Some m"
    and "status \<noteq> 401 \<or> retry opts = Some False \<or>
         (\<exists>s4. refreshToken n srv
                  (clearTimeout (elapse (arm s (outgoing s endpoint opts)) t) (next_timer s))
                = Some (s4, False))"
  shows "\<exists>s'. request (Suc n) srv s endpoint opts = Some (s', Inl (Error m))"
proof (cases "status = 401 \<and> retry opts \<noteq> Some False")
  case False
  with assms(1,2) settle_not_ok [OF assms(3,4)] show ?thesis
    by (auto simp: request_Suc Let_def simp del: refreshToken.simps)
next
  case True
  with assms(5) obtain s4 where
    r: "refreshToken n srv (clearTimeout (elapse (arm s (outgoing s endpoint opts)) t) (next_timer s))
          = Some (s4, False)"
    by auto
  from finish_after_refresh [OF assms(2) r, of status "Body t2 parsed"] settle_not_ok [OF assms(3,4)]
  have "finish s4 (outgoing s endpoint opts) status (Body t2 parsed) = Some (elapse s4 t2, Inl (Error m))"
    by simp
  with True assms(1,2) r show ?thesis
    by (simp add: request_Suc Let_def del: refreshToken.simps)
qed

theorem request_error_message_witness:
  "(\<exists>s'. request 1 (always (Response 15 404 (Body 2 (Some (JObj [(''detail'', JStr ''Not found.'')])))))
            fresh EVENTS get_options
          = Some (s', Inl (Error ''Not found.''))) \<and>
   (\<exists>s'. request 1 (always unauthorized) fresh EVENTS get_options
          = Some (s', Inl (Error ''Token is invalid or expired'')))"
proof -
  have r: "\<exists>s4. refreshToken 0 (always unauthorized)
                  (clearTimeout (elapse (arm fresh (outgoing fresh EVENTS get_options)) 20) (next_timer fresh))
                = Some (s4, False)"
    by simp
  have u: "always unauthorized (sent fresh) (outgoing fresh EVENTS get_options)
             = Response 20 401 (Body 5 (Some (JObj [(''detail'', JStr ''Token is invalid or expired'')])))"
    by (simp add: always_def unauthorized_def)
  have m: "message_of_body 401 (Some (JObj [(''detail'', JStr ''Token is invalid or expired'')]))
             = Some ''Token is invalid or expired''"
    by (simp add: message_of_body_def string_form_def)
  have a: "\<exists>s'. request 1 (always unauthorized) fresh EVENTS get_options
          = Some (s', Inl (Error ''Token is invalid or expired''))"
    using request_error_message
      [of "always unauthorized" fresh EVENTS get_options 20 401 5
          "Some (JObj [(''detail'', JStr ''Token is invalid or expired'')])"
          "''Token is invalid or expired''" 0]
      u m r
    by (simp add: TIMEOUT_def del: refreshToken.simps)
  have b: "\<exists>s'. request 1 (always (Response 15 404 (Body 2 (Some (JObj [(''detail'', JStr ''Not found.'')])))))
            fresh EVENTS get_options
          = Some (s', Inl (Error ''Not found.''))"
    using request_error_message
      [of "always (Response 15 404 (Body 2 (Some (JObj [(''detail'', JStr ''Not found.'')]))))"
          fresh EVENTS get_options 15 404 2 "Some (JObj [(''detail'', JStr ''Not found.'')])" "''Not found.''" 0]
    by (simp add: always_def TIMEOUT_def ok_def message_of_body_def string_form_def)
  from a b show ?thesis by simp
qed

text \<open>
  The claim as stated fails on a field that is present but falsy: the body carries a
  \<open>detail\<close> field, the empty string, and the message is taken from \<open>error\<close>.
\<close>

theorem falsy_detail_counterexample:
  "request 1
     (always (Response 15 400 (Body 2 (Some (JObj [(''detail'', JStr []), (''error'', JStr ''Invalid data'')])))))
     fresh EVENTS get_options =
   Some (elapse (clearTimeout (elapse (arm fresh (outgoing fresh EVENTS get_options)) 15) 0) 2,
         Inl (Error ''Invalid data''))"
  by (simp add: request_Suc always_def TIMEOUT_def ok_def settle_def thrown_def fresh_def Let_def)

section \<open>The time-out\<close>

text \<open>
  Claim C5, as amended. The configured time-out is 30000 ms and bounds the wait for the
  response: when the promise of \<open>fetch\<close> has not settled within it, the timer fires,
  the fetch, which carries the signal of the controller, is aborted, and \<open>request\<close>
  rejects with the time-out error 30000 ms after the call, at any depth. Once the
  response has arrived the timer is cleared, so the read of the body is outside this
  bound.
\<close>

theorem request_timeout:
  assumes "TIMEOUT \<le> latency (srv (sent s) (outgoing s endpoint opts))"
  shows "request (Suc n) srv s endpoint opts =
           Some (elapse (arm s (outgoing s endpoint opts)) TIMEOUT, Inl (Error TIMEOUT_MESSAGE)) \<and>
         f_signal (outgoing s endpoint opts) = Some (fresh_controller s) \<and>
         fresh_controller s \<notin> set (aborted s) \<and>
         fresh_controller s \<in> set (aborted (elapse (arm s (outgoing s endpoint opts)) TIMEOUT)) \<and>
         now (elapse (arm s (outgoing s endpoint opts)) TIMEOUT) = now s + TIMEOUT \<and>
         TIMEOUT = 30000"
  using assms fresh_not_aborted [of s]
  by (simp add: request_Suc Let_def elapse_def timers_arm) (simp add: TIMEOUT_def)

theorem request_timeout_witness:
  "TIMEOUT \<le> latency (Response 45000 200 (Body 5 (Some (JObj [])))) \<and>
   request 1 (always (Response 45000 200 (Body 5 (Some (JObj []))))) fresh EVENTS get_options
     = Some (elapse (arm fresh (outgoing fresh EVENTS get_options)) TIMEOUT, Inl (Error TIMEOUT_MESSAGE)) \<and>
   aborted (elapse (arm fresh (outgoing fresh EVENTS get_options)) TIMEOUT) = [1] \<and>
   now (elapse (arm fresh (outgoing fresh EVENTS get_options)) TIMEOUT) = 30000"
  using request_timeout [of "always (Response 45000 200 (Body 5 (Some (JObj []))))" fresh EVENTS get_options 0]
  by (simp add: always_def TIMEOUT_def elapse_def timers_arm fresh_def fresh_controller_def)

text \<open>
  The claim as stated fails when the response arrives in time and its body arrives
  late: the timer has been cleared, nothing is aborted, and \<open>request\<close> resolves
  60010 ms after the call. With a body that never finishes the call never settles.
\<close>

theorem late_body_counterexample:
  "request 1 (always (Response 10 200 (Body 60000 (Some (JObj [(''count'', JNum ''0'')])))))
      fresh EVENTS get_options =
     Some (elapse (clearTimeout (elapse (arm fresh (outgoing fresh EVENTS get_options)) 10) 0) 60000,
           Inr (JObj [(''count'', JNum ''0'')])) \<and>
   now (elapse (clearTimeout (elapse (arm fresh (outgoing fresh EVENTS get_options)) 10) 0) 60000) = 60010 \<and>
   aborted (elapse (clearTimeout (elapse (arm fresh (outgoing fresh EVENTS get_options)) 10) 0) 60000) = []"
  by (simp add: request_Suc always_def TIMEOUT_def Let_def settle_ok ok_def get_options_def
        elapse_def clearTimeout_def timers_arm fresh_def)

lemma stalled_body_never_settles:
  "request n (always (Response 10 200 Stalled)) s e opts = None"
  by (cases n) (simp_all add: request_Suc always_def TIMEOUT_def Let_def)

text \<open>
  It is the cleared timer that leaves the body unguarded: were the timer still armed
  while the body is read, a read that never finishes would be aborted at the deadline
  and \<open>{}\<close> substituted.
\<close>

lemma body_read_aborted_while_armed:
  assumes "f_signal call = Some (fresh_controller s)" and "t < TIMEOUT"
  shows "await_json (elapse (arm s call) t) call Stalled =
           Some (elapse (elapse (arm s call) t) (TIMEOUT - t), None)"
proof -
  let ?s2 = "elapse (arm s call) t"
  have ab: "set (aborted ?s2) \<subseteq> set (aborted s) \<union> t_controller ` set (timers s)"
    using assms(2) by (auto simp: elapse_def timers_arm)
  have nf: "fresh_controller s \<notin> set (aborted s) \<union> t_controller ` set (timers s)"
    using fresh_not_aborted [of s] by (auto dest: timer_lt_fresh)
  from ab nf assms(1) have a: "\<not> signal_aborted ?s2 call"
    by (auto simp: signal_aborted_def)
  have d: "abort_deadlines ?s2 call = [now s + TIMEOUT]"
    using assms fresh_not_targeted' [of s]
    by (simp add: abort_deadlines_def elapse_def timers_arm filter_empty_conv)
  have n: "now ?s2 = now s + t" by (simp add: elapse_def)
  from assms(2) have "now s + TIMEOUT - (now s + t) = TIMEOUT - t" by simp
  with a d n show ?thesis
    by (simp add: await_json_def Let_def)
qed

text \<open>
  When the fetch resolves with a response and no refresh follows, the timer armed for
  it has been cleared; when the fetch rejects with a network error the timer is still
  armed after \<open>request\<close> has rejected.
\<close>

lemma timer_cleared_on_response:
  assumes "srv (sent s) (outgoing s e opts) = Response t status (Body t2 v)" and "t < TIMEOUT"
    and "status \<noteq> 401 \<or> retry opts = Some False"
  shows "\<exists>s' r. request (Suc n) srv s e opts = Some (s', r) \<and>
                next_timer s \<notin> t_id ` set (timers s')"
  using assms by (auto simp: request_Suc Let_def clearTimeout_def elapse_def)

lemma timer_left_on_network_error:
  assumes "srv (sent s) (outgoing s e opts) = NetworkError t msg" and "t < TIMEOUT"
  shows "\<exists>s'. request (Suc n) srv s e opts = Some (s', Inl (TypeError msg)) \<and>
              \<lparr>t_id = next_timer s, t_deadline = now s + TIMEOUT, t_controller = fresh_controller s\<rparr>
                \<in> set (timers s')"
  using assms by (auto simp: request_Suc Let_def elapse_def timers_arm)

text \<open>
  Claim C3. The claim promises that the timer is cleared on every completion path. When
  the fetch rejects with a network error, \<open>clearTimeout\<close> is not reached: the request
  rejects with the TypeError and the timer it armed (identifier 0, due at 30000) is
  still armed.
\<close>

theorem request_network_error_leaves_timer:
  "request 1 (always (NetworkError 5 ''Failed to fetch'')) fresh HEALTH get_options =
     Some (elapse (arm fresh (outgoing fresh HEALTH get_options)) 5, Inl (TypeError ''Failed to fetch'')) \<and>
   timers fresh = [] \<and>
   timers (elapse (arm fresh (outgoing fresh HEALTH get_options)) 5) =
     [\<lparr>t_id = 0, t_deadline = 30000, t_controller = 1\<rparr>]"
  by (simp add: request_Suc always_def TIMEOUT_def Let_def elapse_def timers_arm fresh_def
        fresh_controller_def)

section \<open>Nested calls: depth, settling and the refresh loop\<close>

text \<open>
  A result obtained at some depth is the result at every greater depth.
\<close>

lemma depth_mono:
  "(\<forall>s e opts s' x. request n srv s e opts = Some (s', x) \<longrightarrow>
        request (Suc n) srv s e opts = Some (s', x)) \<and>
   (\<forall>s s' b. refreshToken n srv s = Some (s', b) \<longrightarrow>
        refreshToken (Suc n) srv s = Some (s', b))"
proof (induction n)
  case 0
  show ?case by (auto split: option.splits if_splits)
next
  case (Suc n)
  then have IH1: "\<And>s e opts s' x. request n srv s e opts = Some (s', x) \<Longrightarrow>
                    request (Suc n) srv s e opts = Some (s', x)"
    and IH2: "\<And>s s' b. refreshToken n srv s = Some (s', b) \<Longrightarrow>
                refreshToken (Suc n) srv s = Some (s', b)"
    by blast+
  have req: "request (Suc (Suc n)) srv s e opts = Some (s', x)"
    if "request (Suc n) srv s e opts = Some (s', x)" for s e opts s' x
    using that
    apply (subst request_Suc)
    apply (subst (asm) request_Suc)
    apply (auto simp: Let_def IH1 IH2
        split: fetch_reply.splits if_splits option.splits prod.splits body_read.splits
        simp del: refreshToken.simps)
    done
  have "refreshToken (Suc (Suc n)) srv s = Some (s', b)"
    if "refreshToken (Suc n) srv s = Some (s', b)" for s s' b
    using that
    apply (subst refreshToken.simps)
    apply (subst (asm) refreshToken.simps)
    apply (auto simp: req split: option.splits if_splits prod.splits sum.splits
        simp del: refreshToken.simps)
    done
  with req show ?case by blast
qed

lemma request_depth_add:
  "request n srv s e opts = Some (s', x) \<Longrightarrow> request (n + k) srv s e opts = Some (s', x)"
proof (induction k)
  case 0
  then show ?case by simp
next
  case (Suc k)
  with depth_mono [of "n + k" srv] show ?case
    by (simp del: refreshToken.simps)
qed

text \<open>
  A request with \<open>retry\<close> set to false, or whose response is not a 401 received in
  time, settles at depth one, provided the body finishes. As long as the refresh
  endpoint itself never answers 401, every refresh and every request settles.
\<close>

lemma request_no_retry_settles:
  assumes "retry opts = Some False"
    and "\<And>t st. srv (sent s) (outgoing s e opts) \<noteq> Response t st Stalled"
  shows "request (Suc n) srv s e opts \<noteq> None"
  using assms by (auto simp: request_Suc Let_def split: fetch_reply.splits body_read.splits)

lemma request_not_401_settles:
  assumes "\<And>t b. srv (sent s) (outgoing s e opts) = Response t 401 b \<Longrightarrow> \<not> t < TIMEOUT"
    and "\<And>t st. srv (sent s) (outgoing s e opts) \<noteq> Response t st Stalled"
  shows "request (Suc n) srv s e opts \<noteq> None"
  using assms
  by (auto simp: request_Suc Let_def split: fetch_reply.splits body_read.splits simp del: refreshToken.simps)

lemma refreshToken_settles:
  assumes "\<And>h c t b. f_url c = BASE_URL @ REFRESH \<Longrightarrow> srv h c = Response t 401 b \<Longrightarrow> \<not> t < TIMEOUT"
    and "\<And>h c t st. srv h c \<noteq> Response t st Stalled"
  shows "refreshToken (Suc n) srv s \<noteq> None"
proof (cases "getItem s ''refresh_token''")
  case None
  then show ?thesis by simp
next
  case (Some r)
  have "request (Suc n) srv s REFRESH (post_options (JObj [(''refresh'', JStr r)])) \<noteq> None"
    using assms(1) [OF f_url_outgoing] assms(2) by (intro request_not_401_settles) blast+
  with Some show ?thesis
    by (auto split: sum.splits)
qed

lemma request_settles:
  assumes "\<And>h c t b. f_url c = BASE_URL @ REFRESH \<Longrightarrow> srv h c = Response t 401 b \<Longrightarrow> \<not> t < TIMEOUT"
    and "\<And>h c t st. srv h c \<noteq> Response t st Stalled"
  shows "request (Suc (Suc n)) srv s e opts \<noteq> None"
proof -
  have r: "refreshToken (Suc n) srv s2 \<noteq> None" for s2
    using assms by (rule refreshToken_settles)
  have q: "request (Suc n) srv s3 e (opts\<lparr>retry := Some False\<rparr>) \<noteq> None" for s3
    by (rule request_no_retry_settles) (simp_all add: assms(2))
  let ?call = "outgoing s e opts"
  show ?thesis
  proof (cases "srv (sent s) ?call")
    case (NetworkError t msg)
    then show ?thesis by (simp add: request_Suc Let_def)
  next
    case (Response t status bdy)
    with assms(2) have ns: "bdy \<noteq> Stalled" by metis
    let ?s3 = "clearTimeout (elapse (arm s ?call) t) (next_timer s)"
    obtain s4 b where rt: "refreshToken (Suc n) srv ?s3 = Some (s4, b)"
      using r [of ?s3] by (cases "refreshToken (Suc n) srv ?s3") auto
    from ns obtain t2 v where bd: "bdy = Body t2 v" by (cases bdy) auto
    from Response bd rt q [of s4] finish_not_stalled [of bdy s4 ?call status] show ?thesis
      by (auto simp: request_Suc Let_def simp del: refreshToken.simps)
  qed
qed

text \<open>
  Counting fetches: at depth one a request sends one fetch and a refresh at most one,
  so at depth two a request sends at most three: the original, the refresh, the retry.
\<close>

lemma request_one_fetch:
  "request (Suc 0) srv s e opts = Some (s', r) \<Longrightarrow> sent s' = sent s @ [outgoing s e opts]"
  by (auto simp: request_Suc Let_def split: fetch_reply.splits if_splits option.splits body_read.splits
      dest!: finish_sent)

lemma refreshToken_one_fetch:
  "refreshToken (Suc 0) srv s = Some (s', b) \<Longrightarrow> length (sent s') \<le> Suc (length (sent s))"
  apply (subst (asm) refreshToken.simps)
  apply (auto split: option.splits if_splits sum.splits prod.splits dest!: request_one_fetch
      simp del: refreshToken.simps)
  done

lemma request_three_fetches:
  assumes "request (Suc (Suc 0)) srv s e opts = Some (s', r)"
  shows "length (sent s') \<le> length (sent s) + 3"
  using assms
  apply (subst (asm) request_Suc)
  apply (auto simp: Let_def split: fetch_reply.splits if_splits option.splits prod.splits body_read.splits
      dest!: request_one_fetch refreshToken_one_fetch finish_sent simp del: refreshToken.simps)
  done

lemma bounded_retry:
  assumes "\<And>h c t b. f_url c = BASE_URL @ REFRESH \<Longrightarrow> srv h c = Response t 401 b \<Longrightarrow> \<not> t < TIMEOUT"
    and "\<And>h c t st. srv h c \<noteq> Response t st Stalled"
  shows "\<exists>s' r. request (Suc (Suc n)) srv s e opts = Some (s', r) \<and>
                length (sent s') \<le> length (sent s) + 3"
proof -
  obtain s' r where two: "request (Suc (Suc 0)) srv s e opts = Some (s', r)"
    using request_settles [of srv 0 s e opts] assms
    by (cases "request (Suc (Suc 0)) srv s e opts") auto
  from request_depth_add [OF two, of n] have "request (Suc (Suc n)) srv s e opts = Some (s', r)"
    by simp
  with request_three_fetches [OF two] show ?thesis by blast
qed

text \<open>
  The two scripted scenarios of a 401 followed by a successful refresh: the request is
  issued again once, with the new token; if the second answer is a 401 as well the
  call fails after that single refresh.
\<close>

lemma retry_then_success:
  "\<exists>s'. request (Suc (Suc 0))
            (scripted [unauthorized, refresh_ok, Response 10 200 (Body 5 (Some (JObj [(''count'', JNum ''0'')])))])
            (session ''A1'' ''R1'') EVENTS get_options
          = Some (s', Inr (JObj [(''count'', JNum ''0'')])) \<and>
        map f_url (sent s') = [BASE_URL @ EVENTS, BASE_URL @ REFRESH, BASE_URL @ EVENTS] \<and>
        f_headers (sent s' ! 2) ''Authorization'' = Some ''Bearer A2'' \<and>
        timers s' = []"
  by (simp add: request_Suc scripted_def unauthorized_def refresh_ok_def TIMEOUT_def
        session_def fresh_def Let_def get_options_def post_options_def ok_def settle_def
        clearTimeout_def elapse_def timers_arm arm_def setTimeout_def new_AbortController_def
        setItem_def getItem_def outgoing_def fetch_args_def getHeaders_def)

lemma retry_then_failure:
  "\<exists>s'. request (Suc (Suc 0)) (scripted [unauthorized, refresh_ok, unauthorized])
            (session ''A1'' ''R1'') EVENTS get_options
          = Some (s', Inl (Error ''Token is invalid or expired'')) \<and>
        map f_url (sent s') = [BASE_URL @ EVENTS, BASE_URL @ REFRESH, BASE_URL @ EVENTS]"
  by (simp add: request_Suc scripted_def unauthorized_def refresh_ok_def TIMEOUT_def
        session_def fresh_def Let_def get_options_def post_options_def ok_def settle_def thrown_def
        clearTimeout_def elapse_def timers_arm arm_def setTimeout_def new_AbortController_def
        setItem_def getItem_def outgoing_def fetch_args_def getHeaders_def)

text \<open>
  \<open>refreshToken\<close> posts through \<open>request\<close> with \<open>retry\<close> left unset. Against a
  server that answers every fetch, the refresh endpoint included, with 401, and with a
  refresh token stored, a request with \<open>retry\<close> not false starts a refresh, whose
  request starts a refresh, and so on: no depth is enough.
\<close>

lemma refresh_loop:
  assumes srv: "\<And>h c. \<exists>t b. srv h c = Response t 401 b \<and> t < TIMEOUT"
  shows "(\<forall>s e opts. getItem s ''refresh_token'' = Some r \<and> r \<noteq> [] \<and> retry opts \<noteq> Some False
            \<longrightarrow> request n srv s e opts = None) \<and>
         (\<forall>s. getItem s ''refresh_token'' = Some r \<and> r \<noteq> [] \<longrightarrow> refreshToken n srv s = None)"
proof (induction n)
  case 0
  show ?case by simp
next
  case (Suc n)
  have req: "request (Suc n) srv s e opts = None"
    if "getItem s ''refresh_token'' = Some r" "r \<noteq> []" "retry opts \<noteq> Some False" for s e opts
  proof -
    obtain t b where rep: "srv (sent s) (outgoing s e opts) = Response t 401 b" "t < TIMEOUT"
      using srv by blast
    have "refreshToken n srv (clearTimeout (elapse (arm s (outgoing s e opts)) t) (next_timer s)) = None"
      using Suc that by simp
    with rep that show ?thesis by (simp add: request_Suc Let_def del: refreshToken.simps)
  qed
  then show ?case by simp
qed

text \<open>
  Claim C1. The claim promises exactly one refresh attempt and no infinite loop for every
  call. With the session \<open>A0\<close>/\<open>R0\<close> stored and a server that answers 401 to every
  fetch (an expired refresh token), \<open>request\<close> does not settle at any depth.
\<close>

theorem request_refresh_loop:
  "request n (always unauthorized) (session ''A0'' ''R0'') EVENTS get_options = None"
proof -
  have "\<And>h c. \<exists>t b. always unauthorized h c = Response t 401 b \<and> t < TIMEOUT"
    by (simp add: always_def unauthorized_def TIMEOUT_def)
  from refresh_loop [OF this, of "''R0''" n] show ?thesis
    by (simp add: session_def setItem_def getItem_def get_options_def)
qed

section \<open>Refresh failure\<close>

lemma refreshToken_rejected:
  assumes "getItem s ''refresh_token'' = Some refresh" and "refresh \<noteq> []"
    and "request n srv s REFRESH (post_options (JObj [(''refresh'', JStr refresh)])) = Some (s1, Inl e)"
  shows "refreshToken n srv s = Some (logout s1, False)"
  using assms by simp

text \<open>
  Claim C2, as amended. When a refresh token is stored and the refresh request fails
  with a network error, a time-out, or a response (body read to its end) whose status
  is outside the success range and is not 401, \<open>refreshToken\<close> returns false after
  \<open>logout\<close>: \<open>access_token\<close> and \<open>refresh_token\<close> are removed and
  \<open>isAuthenticated\<close> is false. When no refresh token is stored, \<open>refreshToken\<close>
  returns false and leaves the state as it is.
\<close>

theorem refreshToken_rejected_clears_session:
  "(getItem s ''refresh_token'' = Some refresh \<and> refresh \<noteq> [] \<and>
    (case srv (sent s) (outgoing s REFRESH (post_options (JObj [(''refresh'', JStr refresh)]))) of
       NetworkError t msg \<Rightarrow> True
     | Response t status bdy \<Rightarrow>
         TIMEOUT \<le> t \<or> (\<not> ok status \<and> status \<noteq> 401 \<and> bdy \<noteq> Stalled)) \<longrightarrow>
      (\<exists>s'. refreshToken (Suc n) srv s = Some (s', False) \<and>
            getItem s' ''access_token'' = None \<and> getItem s' ''refresh_token'' = None \<and>
            \<not> isAuthenticated s')) \<and>
   (getItem s ''refresh_token'' = None \<or> getItem s ''refresh_token'' = Some [] \<longrightarrow>
      refreshToken n srv s = Some (s, False))"
proof (intro conjI impI)
  assume "getItem s ''refresh_token'' = None \<or> getItem s ''refresh_token'' = Some []"
  then show "refreshToken n srv s = Some (s, False)" by auto
next
  let ?opts = "post_options (JObj [(''refresh'', JStr refresh)])"
  let ?reply = "srv (sent s) (outgoing s REFRESH ?opts)"
  assume a: "getItem s ''refresh_token'' = Some refresh \<and> refresh \<noteq> [] \<and>
    (case ?reply of
       NetworkError t msg \<Rightarrow> True
     | Response t status bdy \<Rightarrow>
         TIMEOUT \<le> t \<or> (\<not> ok status \<and> status \<noteq> 401 \<and> bdy \<noteq> Stalled))"
  have "\<exists>s1 e. request (Suc n) srv s REFRESH ?opts = Some (s1, Inl e)"
  proof (cases ?reply)
    case (NetworkError t msg)
    then show ?thesis by (simp add: request_Suc Let_def)
  next
    case (Response t status bdy)
    show ?thesis
    proof (cases "TIMEOUT \<le> t")
      case True
      with Response show ?thesis by (simp add: request_Suc Let_def)
    next
      case False
      with a Response have st: "\<not> ok status" "status \<noteq> 401" "bdy \<noteq> Stalled" by auto
      then obtain t2 v where "bdy = Body t2 v" by (cases bdy) auto
      with Response False st settle_rejects [OF st(1), of v] show ?thesis
        by (auto simp: request_Suc Let_def)
    qed
  qed
  then obtain s1 e where "request (Suc n) srv s REFRESH ?opts = Some (s1, Inl e)" by blast
  with a have "refreshToken (Suc n) srv s = Some (logout s1, False)"
    by (intro refreshToken_rejected) auto
  with logout_clears [of s1]
  show "\<exists>s'. refreshToken (Suc n) srv s = Some (s', False) \<and>
            getItem s' ''access_token'' = None \<and> getItem s' ''refresh_token'' = None \<and>
            \<not> isAuthenticated s'" by blast
qed

theorem refreshToken_rejected_clears_session_witness:
  "(\<exists>s'. refreshToken 1 (always (Response 25 400 (Body 3 (Some (JObj [(''detail'', JStr ''Bad token'')])))))
             (session ''A1'' ''R1'')
            = Some (s', False) \<and>
          getItem s' ''access_token'' = None \<and> getItem s' ''refresh_token'' = None \<and>
          \<not> isAuthenticated s') \<and>
   refreshToken 1 (always (NetworkError 5 ''Failed to fetch'')) fresh = Some (fresh, False)"
  using
    refreshToken_rejected_clears_session
      [of "session ''A1'' ''R1''" "''R1''"
          "always (Response 25 400 (Body 3 (Some (JObj [(''detail'', JStr ''Bad token'')]))))" 0]
    refreshToken_rejected_clears_session
      [of fresh "''R1''" "always (NetworkError 5 ''Failed to fetch'')" "Suc 0"]
  by (simp add: session_def setItem_def getItem_def always_def TIMEOUT_def ok_def fresh_def
        del: refreshToken.simps)

text \<open>
  The claim as stated fails when no refresh token is stored: \<open>refreshToken\<close> returns
  false, the access token stays, and \<open>isAuthenticated\<close> is still true.
\<close>

theorem refreshToken_absent_counterexample:
  "refreshToken 1 (always unauthorized) (setItem fresh ''access_token'' ''A1'') =
     Some (setItem fresh ''access_token'' ''A1'', False) \<and>
   isAuthenticated (setItem fresh ''access_token'' ''A1'')"
  by (simp add: getItem_def setItem_def fresh_def isAuthenticated_def)

section \<open>The convenience callers\<close>












end
